theory Spec2Isabelle
  imports Main
begin

section \<open>Data model\<close>

text \<open>
  Identifiers (\<open>ApId\<close>, \<open>FlowId\<close>, \<open>ProjectId\<close>, \<open>FlowVersionId\<close>, folder ids and lock
  keys) are strings in the service; the folder filter compares one of them with the
  literal \<open>'NULL'\<close>, so they stay strings here.
\<close>

type_synonym ApId = string

datatype TriggerType = EMPTY | PIECE | WEBHOOK

datatype FlowVersionState = LOCKED | DRAFT

datatype FlowInstanceStatus = UNPUBLISHED | ENABLED | DISABLED

record Trigger =
  t_displayName :: string
  t_name :: string
  t_type :: TriggerType
  t_settings :: "(string \<times> string) list"
  t_valid :: bool

text \<open>What \<open>create\<close> hands to \<open>createVersion\<close>: the display name, the validity flag and
  the trigger of a version.\<close>

record VersionContent =
  c_displayName :: string
  c_valid :: bool
  c_trigger :: Trigger

record FlowVersion =
  v_id :: ApId
  v_flowId :: ApId
  v_content :: VersionContent
  v_state :: FlowVersionState

record FlowInstance =
  i_projectId :: ApId
  i_flowId :: ApId
  i_status :: FlowInstanceStatus

text \<open>A row of the flow table (\<open>Omit<Flow, 'version'>\<close> in \<open>update\<close>): the columns the
  service names. A \<open>Flow\<close> is the row spread into an object that adds \<open>version\<close> and
  \<open>status\<close>; \<open>version\<close> is optional because the non-null assertion \<open>!\<close> of the source
  is erased at run time, \<open>status\<close> because \<open>create\<close> does not set it.\<close>

record FlowRecord =
  f_id :: ApId
  f_projectId :: ApId
  f_folderId :: "ApId option"

record Flow = FlowRecord +
  fl_version :: "FlowVersion option"
  fl_status :: "FlowInstanceStatus option"

record CreateFlowRequest =
  cr_displayName :: string
  cr_folderId :: "ApId option"

datatype Failure =
    FLOW_NOT_FOUND ApId
  | LOCK_TIMEOUT ApId
  | TYPE_ERROR
  | OPERATION_FAILED string

text \<open>A request is the folder reassignment, which carries the new folder (absent or
  null for none), or any other operation; the service passes the latter to the version
  service untouched, so it is represented by what it does to the content of a version,
  which may fail.\<close>

datatype FlowOperationRequest =
    CHANGE_FOLDER "ApId option"
  | VERSION_OPERATION "VersionContent \<Rightarrow> Failure + VersionContent"

datatype FolderCondition = IsNull | Equal ApId

record QueryWhere =
  w_projectId :: ApId
  w_folderId :: "FolderCondition option"

datatype Cursor = NextCursor ApId | PreviousCursor ApId

record DecodedCursor =
  nextCursor :: "ApId option"
  previousCursor :: "ApId option"

record Paginator =
  p_limit :: nat
  p_afterCursor :: "ApId option"
  p_beforeCursor :: "ApId option"

record PagingResult =
  pr_data :: "FlowRecord list"
  pr_afterCursor :: "ApId option"
  pr_beforeCursor :: "ApId option"

record SeekPage =
  sp_data :: "Flow list"
  sp_next :: "Cursor option"
  sp_previous :: "Cursor option"

datatype ApLock = ApLock ApId

section \<open>State and the log of collaborator calls\<close>

text \<open>Every call the service makes on a collaborator is logged in order, with the
  arguments the claims speak about. \<open>EvOnFlowDelete\<close> also logs whether the flow row was
  in the table when the callback ran.\<close>

datatype Event =
    EvAcquireLock ApId nat
  | EvRelease ApId
  | EvRepoSave ApId
  | EvRepoFindOneBy ApId ApId
  | EvRepoUpdate ApId
  | EvRepoDelete ApId ApId
  | EvRepoCount QueryWhere
  | EvRepoQuery QueryWhere
  | EvCreateVersion ApId ApId
  | EvGetFlowVersion ApId "ApId option"
  | EvApplyOperation ApId ApId
  | EvInstanceGet ApId ApId
  | EvOnFlowDelete ApId ApId bool
  | EvTrackProject ApId ApId

record State =
  flows :: "FlowRecord list"
  versions :: "FlowVersion list"
  instances :: "FlowInstance list"
  locks :: "ApId set"
  calls :: "Event list"

definition emit :: "Event \<Rightarrow> State \<Rightarrow> State" where
  "emit e s = s\<lparr>calls := calls s @ [e]\<rparr>"

section \<open>The flow repository (TypeORM)\<close>

text \<open>The table keeps its rows in insertion order. \<open>save\<close> inserts, or overwrites the
  row that has the primary key already; \<open>findOneBy\<close> gives the first row with the
  project and the id; \<open>update\<close> takes the primary key as its criterion; \<open>delete\<close>
  removes the rows with the project and the id.\<close>

definition flowRepo_save :: "State \<Rightarrow> FlowRecord \<Rightarrow> FlowRecord \<times> State" where
  "flowRepo_save s r =
     (let s1 = emit (EvRepoSave (f_id r)) s
      in (r, s1\<lparr>flows :=
                (if f_id r \<in> set (map f_id (flows s1))
                 then map (\<lambda>x. if f_id x = f_id r then r else x) (flows s1)
                 else flows s1 @ [r])\<rparr>))"

definition flowRepo_findOneBy :: "State \<Rightarrow> ApId \<Rightarrow> ApId \<Rightarrow> FlowRecord option \<times> State" where
  "flowRepo_findOneBy s projectId ident =
     (find (\<lambda>r. f_projectId r = projectId \<and> f_id r = ident) (flows s),
      emit (EvRepoFindOneBy projectId ident) s)"

definition flowRepo_update :: "State \<Rightarrow> ApId \<Rightarrow> FlowRecord \<Rightarrow> State" where
  "flowRepo_update s ident r =
     (let s1 = emit (EvRepoUpdate ident) s
      in s1\<lparr>flows := map (\<lambda>x. if f_id x = ident then r else x) (flows s1)\<rparr>)"

definition flowRepo_delete :: "State \<Rightarrow> ApId \<Rightarrow> ApId \<Rightarrow> State" where
  "flowRepo_delete s projectId ident =
     (let s1 = emit (EvRepoDelete projectId ident) s
      in s1\<lparr>flows := filter (\<lambda>r. \<not> (f_projectId r = projectId \<and> f_id r = ident)) (flows s1)\<rparr>)"

fun folderMatches :: "FolderCondition option \<Rightarrow> ApId option \<Rightarrow> bool" where
  "folderMatches None fo = True"
| "folderMatches (Some IsNull) fo = (fo = None)"
| "folderMatches (Some (Equal x)) fo = (fo = Some x)"

definition whereMatches :: "QueryWhere \<Rightarrow> FlowRecord \<Rightarrow> bool" where
  "whereMatches w r =
     (f_projectId r = w_projectId w \<and> folderMatches (w_folderId w) (f_folderId r))"

definition flowRepo_count :: "State \<Rightarrow> QueryWhere \<Rightarrow> nat \<times> State" where
  "flowRepo_count s w = (length (filter (whereMatches w) (flows s)), emit (EvRepoCount w) s)"

definition flowRepo_query :: "State \<Rightarrow> QueryWhere \<Rightarrow> FlowRecord list \<times> State" where
  "flowRepo_query s w = (filter (whereMatches w) (flows s), emit (EvRepoQuery w) s)"

section \<open>Pagination helpers\<close>

text \<open>The spec calls \<open>list\<close> a cursor-paginated listing and leaves the mechanics of the
  cursor aside. The helpers below give it a plain reading: a page holds at most
  \<open>limit\<close> rows of the query, in the order \<open>DESC\<close> that \<open>list\<close> asks for, taken after or
  before the row that the cursor names, and it carries the cursors of its neighbours.
  What is proved of \<open>list\<close> rests on one fact about them only: a page is drawn from the
  rows of the query.\<close>

text \<open>Modelled from the spec: \<open>paginationHelper.decodeCursor\<close> (helper/pagination), which
  the service imports; it splits the request cursor into a next and a previous
  cursor.\<close>

definition decodeCursor :: "Cursor option \<Rightarrow> DecodedCursor" where
  "decodeCursor c =
     (case c of
        None \<Rightarrow> \<lparr>nextCursor = None, previousCursor = None\<rparr>
      | Some (NextCursor k) \<Rightarrow> \<lparr>nextCursor = Some k, previousCursor = None\<rparr>
      | Some (PreviousCursor k) \<Rightarrow> \<lparr>nextCursor = None, previousCursor = Some k\<rparr>)"

text \<open>Modelled from the spec: \<open>buildPaginator\<close> (helper/pagination), which the service
  imports; it keeps the limit and the two cursors of the query.\<close>

definition buildPaginator :: "nat \<Rightarrow> ApId option \<Rightarrow> ApId option \<Rightarrow> Paginator" where
  "buildPaginator limit afterCursor beforeCursor =
     \<lparr>p_limit = limit, p_afterCursor = afterCursor, p_beforeCursor = beforeCursor\<rparr>"

text \<open>Modelled from the spec: the rows that follow the row a cursor names, part of the
  paginator's \<open>paginate\<close>.\<close>

fun rowsAfter :: "ApId \<Rightarrow> FlowRecord list \<Rightarrow> FlowRecord list" where
  "rowsAfter k [] = []"
| "rowsAfter k (r # rs) = (if f_id r = k then rs else rowsAfter k rs)"

text \<open>Modelled from the spec: the rows a page is cut from, newest first and located by
  the cursor, part of the paginator's \<open>paginate\<close>.\<close>

definition pageWindow :: "Paginator \<Rightarrow> FlowRecord list \<Rightarrow> FlowRecord list" where
  "pageWindow p rows =
     (case p_afterCursor p of
        Some k \<Rightarrow> rowsAfter k (rev rows)
      | None \<Rightarrow>
          (case p_beforeCursor p of
             Some k \<Rightarrow> takeWhile (\<lambda>r. f_id r \<noteq> k) (rev rows)
           | None \<Rightarrow> rev rows))"

text \<open>Modelled from the spec: the paginator's \<open>paginate\<close> (helper/pagination), which gives
  the page, at most \<open>limit\<close> rows, and the cursors around it.\<close>

definition paginate :: "Paginator \<Rightarrow> FlowRecord list \<Rightarrow> PagingResult" where
  "paginate p rows =
     (let window = pageWindow p rows;
          page = take (p_limit p) window
      in \<lparr>pr_data = page,
          pr_afterCursor =
            (if p_limit p < length window \<and> page \<noteq> [] then Some (f_id (last page)) else None),
          pr_beforeCursor =
            (if length window < length rows \<and> page \<noteq> [] then Some (f_id (hd page)) else None)\<rparr>)"

text \<open>Modelled from the spec: \<open>paginationHelper.createPage\<close> (helper/pagination), which
  packs the entries and the cursors into the page that \<open>list\<close> returns.\<close>

definition createPage :: "Flow list \<Rightarrow> PagingResult \<Rightarrow> SeekPage" where
  "createPage fs r =
     \<lparr>sp_data = fs,
      sp_next = map_option NextCursor (pr_afterCursor r),
      sp_previous = map_option PreviousCursor (pr_beforeCursor r)\<rparr>"

section \<open>The id generator\<close>

text \<open>The ids that the stored flows and versions have.\<close>

definition idsInUse :: "State \<Rightarrow> ApId list" where
  "idsInUse s = map f_id (flows s) @ map v_id (versions s)"

text \<open>Modelled from the spec: \<open>apId\<close> (the shared package), which allocates a new
  identity. Given the ids in use it returns an id that is none of them: one that is
  longer than each of them.\<close>

definition apId :: "ApId list \<Rightarrow> ApId" where
  "apId used = replicate (Suc (foldr (\<lambda>u n. max (length u) n) used 0)) (CHR ''x'')"

section \<open>The version service\<close>

text \<open>The service imports \<open>flowVersionService\<close> from flow-version/flow-version.service.
  By the spec, versions are append-only snapshots, and a \<open>LOCKED\<close> one is never changed
  in place.\<close>

text \<open>Modelled from the spec: \<open>flowVersionService.createVersion(flowId, content)\<close>, which
  adds a new mutable version of the flow, with a new identity from the id generator,
  seeded from the content it is given.\<close>

definition createVersion ::
  "State \<Rightarrow> ApId \<Rightarrow> VersionContent \<Rightarrow> FlowVersion \<times> State" where
  "createVersion s flowId request =
     (let v = \<lparr>v_id = apId (idsInUse s), v_flowId = flowId, v_content = request,
               v_state = DRAFT\<rparr>;
          s1 = emit (EvCreateVersion flowId (v_id v)) s
      in (v, s1\<lparr>versions := versions s1 @ [v]\<rparr>))"

text \<open>Modelled from the spec:
  \<open>flowVersionService.getFlowVersion(projectId, flowId, versionId?, includeArtifacts)\<close>,
  which resolves the specified version of the flow or, without a version id, the latest
  one; it gives null when there is none (\<open>list\<close> types its result
  \<open>FlowVersion | null\<close>).\<close>

definition getFlowVersion ::
  "State \<Rightarrow> ApId \<Rightarrow> ApId \<Rightarrow> ApId option \<Rightarrow> bool \<Rightarrow> FlowVersion option \<times> State" where
  "getFlowVersion s projectId flowId versionId includeArtifacts =
     (let found = filter (\<lambda>v. v_flowId v = flowId \<and>
                               (case versionId of None \<Rightarrow> True | Some k \<Rightarrow> v_id v = k))
                         (versions s)
      in (case rev found of [] \<Rightarrow> None | v # _ \<Rightarrow> Some v,
          emit (EvGetFlowVersion flowId versionId) s))"

text \<open>Modelled from the spec:
  \<open>flowVersionService.applyOperation(projectId, version, operationRequest)\<close>, which
  applies the operation to the version it is given and stores the outcome under that
  version's id; an operation that fails stores nothing.\<close>

definition applyOperation ::
  "State \<Rightarrow> ApId \<Rightarrow> FlowVersion \<Rightarrow> FlowOperationRequest \<Rightarrow> (Failure + unit) \<times> State" where
  "applyOperation s projectId flowVersion request =
     (let s1 = emit (EvApplyOperation projectId (v_id flowVersion)) s
      in (case request of
            CHANGE_FOLDER fo \<Rightarrow> (Inr (), s1)
          | VERSION_OPERATION g \<Rightarrow>
              (case g (v_content flowVersion) of
                 Inl e \<Rightarrow> (Inl e, s1)
               | Inr c \<Rightarrow>
                   (Inr (),
                    s1\<lparr>versions :=
                         map (\<lambda>v. if v_id v = v_id flowVersion then v\<lparr>v_content := c\<rparr> else v)
                             (versions s1)\<rparr>))))"

section \<open>The instance service, the lock service and telemetry\<close>

text \<open>Modelled from the spec: \<open>flowInstanceService.get(projectId, flowId)\<close>
  (flow-instance/flow-instance.service), which gives the instance of the flow, or null
  when the flow has none.\<close>

definition flowInstanceService_get ::
  "State \<Rightarrow> ApId \<Rightarrow> ApId \<Rightarrow> FlowInstance option \<times> State" where
  "flowInstanceService_get s projectId flowId =
     (find (\<lambda>i. i_projectId i = projectId \<and> i_flowId i = flowId) (instances s),
      emit (EvInstanceGet projectId flowId) s)"

text \<open>Modelled from the spec: \<open>flowInstanceService.onFlowDelete(projectId, flowId)\<close>
  (flow-instance/flow-instance.service), the instance-level cleanup: it removes the
  instance of the flow and leaves the flow table alone. \<open>seen\<close> is what it observes of
  the flow row when it runs.\<close>

definition onFlowDelete :: "State \<Rightarrow> ApId \<Rightarrow> ApId \<Rightarrow> State" where
  "onFlowDelete s projectId flowId =
     (let seen = (find (\<lambda>r. f_projectId r = projectId \<and> f_id r = flowId) (flows s) \<noteq> None);
          s1 = emit (EvOnFlowDelete projectId flowId seen) s
      in s1\<lparr>instances :=
              filter (\<lambda>i. \<not> (i_projectId i = projectId \<and> i_flowId i = flowId)) (instances s1)\<rparr>)"

text \<open>Modelled from the spec: \<open>acquireLock(key, timeout)\<close> (database/redis-connection), a
  keyed mutual-exclusion primitive that gives a handle with \<open>release()\<close>, or fails when
  the key cannot be acquired within the timeout. One request runs at a time here, so a
  key that is held stays held for the whole wait and the acquisition times out.\<close>

definition acquireLock :: "State \<Rightarrow> ApId \<Rightarrow> nat \<Rightarrow> (Failure + ApLock) \<times> State" where
  "acquireLock s key timeout =
     (let s1 = emit (EvAcquireLock key timeout) s
      in if key \<in> locks s1 then (Inl (LOCK_TIMEOUT key), s1)
         else (Inr (ApLock key), s1\<lparr>locks := insert key (locks s1)\<rparr>))"

text \<open>Modelled from the spec: \<open>release()\<close> of the handle that \<open>acquireLock\<close> gives; it
  frees the key.\<close>

fun release :: "State \<Rightarrow> ApLock \<Rightarrow> State" where
  "release s (ApLock key) = (emit (EvRelease key) s)\<lparr>locks := locks s - {key}\<rparr>"

text \<open>Modelled from the spec: \<open>telemetry.trackProject\<close> (helper/telemetry.utils), a
  fire-and-forget event emission.\<close>

definition trackProject :: "State \<Rightarrow> ApId \<Rightarrow> ApId \<Rightarrow> State" where
  "trackProject s projectId flowId = emit (EvTrackProject projectId flowId) s"

section \<open>The flow service\<close>

definition create :: "State \<Rightarrow> ApId \<Rightarrow> CreateFlowRequest \<Rightarrow> Flow \<times> State" where
  "create s projectId request =
     (let flow = \<lparr>f_id = apId (idsInUse s), f_projectId = projectId,
                  f_folderId = cr_folderId request\<rparr>;
          (savedFlow, s1) = flowRepo_save s flow;
          (created, s2) =
            createVersion s1 (f_id savedFlow)
              \<lparr>c_displayName = cr_displayName request,
               c_valid = False,
               c_trigger = \<lparr>t_displayName = ''Select Trigger'', t_name = ''trigger'',
                            t_type = EMPTY, t_settings = [], t_valid = False\<rparr>\<rparr>;
          (latestFlowVersion, s3) = getFlowVersion s2 projectId (f_id savedFlow) None False;
          s4 = trackProject s3 (f_projectId savedFlow) (f_id flow)
      in (FlowRecord.extend savedFlow (Flow.fields latestFlowVersion None), s4))"

definition getOne ::
  "State \<Rightarrow> ApId \<Rightarrow> ApId \<Rightarrow> ApId option \<Rightarrow> bool \<Rightarrow> Flow option \<times> State" where
  "getOne s projectId ident versionId includeArtifacts =
     (case flowRepo_findOneBy s projectId ident of
        (None, s1) \<Rightarrow> (None, s1)
      | (Some flow, s1) \<Rightarrow>
          (let (flowVersion, s2) = getFlowVersion s1 projectId ident versionId includeArtifacts;
               (inst, s3) = flowInstanceService_get s2 projectId (f_id flow)
           in (Some (FlowRecord.extend flow
                       (Flow.fields flowVersion
                          (Some (case inst of Some i \<Rightarrow> i_status i | None \<Rightarrow> UNPUBLISHED)))),
               s3)))"

definition getOneOrThrow :: "State \<Rightarrow> ApId \<Rightarrow> ApId \<Rightarrow> (Failure + Flow) \<times> State" where
  "getOneOrThrow s projectId ident =
     (case getOne s projectId ident None False of
        (None, s1) \<Rightarrow> (Inl (FLOW_NOT_FOUND ident), s1)
      | (Some flow, s1) \<Rightarrow> (Inr flow, s1))"

text \<open>The \<open>forEach\<close> of \<open>list\<close>: for every row of the page, in order, the version lookup
  and then the instance lookup are started; the two arrays have one entry per row.\<close>

fun fetchAll ::
  "State \<Rightarrow> ApId \<Rightarrow> FlowRecord list \<Rightarrow>
     (FlowVersion option list \<times> FlowInstance option list) \<times> State" where
  "fetchAll s projectId [] = (([], []), s)"
| "fetchAll s projectId (flow # rest) =
     (let (v, s1) = getFlowVersion s projectId (f_id flow) None False;
          (i, s2) = flowInstanceService_get s1 projectId (f_id flow);
          ((vs, is), s3) = fetchAll s2 projectId rest
      in ((v # vs, i # is), s3))"

definition formatFlow :: "FlowRecord \<Rightarrow> FlowVersion option \<Rightarrow> FlowInstance option \<Rightarrow> Flow" where
  "formatFlow flow version inst =
     (let status = UNPUBLISHED;
          status = (case inst of Some i \<Rightarrow> i_status i | None \<Rightarrow> status)
      in FlowRecord.extend flow (Flow.fields version (Some status)))"

definition list ::
  "State \<Rightarrow> ApId \<Rightarrow> Cursor option \<Rightarrow> nat \<Rightarrow> ApId option \<Rightarrow> SeekPage \<times> State" where
  "list s projectId cursorRequest limit folderId =
     (let decodedCursor = decodeCursor cursorRequest;
          paginator = buildPaginator limit (nextCursor decodedCursor) (previousCursor decodedCursor);
          queryWhere = \<lparr>w_projectId = projectId, w_folderId = None\<rparr>;
          queryWhere =
            (case folderId of
               None \<Rightarrow> queryWhere
             | Some fid \<Rightarrow>
                 queryWhere\<lparr>w_folderId := Some (if fid = ''NULL'' then IsNull else Equal fid)\<rparr>);
          (rows, s1) = flowRepo_query s queryWhere;
          paginationResult = paginate paginator rows;
          ((versions, instances), s2) = fetchAll s1 projectId (pr_data paginationResult);
          formattedFlows =
            map (\<lambda>(flow, version, inst). formatFlow flow version inst)
                (zip (pr_data paginationResult) (zip versions instances))
      in (createPage formattedFlows paginationResult, s2))"

text \<open>\<open>update\<close>. \<open>update_try\<close> is the body of the \<open>try\<close> block; reading \<open>state\<close> of a
  version that is not there is the run-time type error of the source.\<close>

definition update_try ::
  "State \<Rightarrow> ApId \<Rightarrow> ApId \<Rightarrow> FlowRecord \<Rightarrow> FlowOperationRequest \<Rightarrow>
     (Failure + unit) \<times> State" where
  "update_try s projectId flowId flow request =
     (case request of
        CHANGE_FOLDER folderId \<Rightarrow>
          (Inr (), flowRepo_update s (f_id flow) (flow\<lparr>f_folderId := folderId\<rparr>))
      | VERSION_OPERATION g \<Rightarrow>
          (case getFlowVersion s projectId flowId None False of
             (None, s1) \<Rightarrow> (Inl TYPE_ERROR, s1)
           | (Some lastVersion, s1) \<Rightarrow>
               (let (lastVersion, s2) =
                      (if v_state lastVersion = LOCKED
                       then createVersion s1 flowId (v_content lastVersion)
                       else (lastVersion, s1))
                in applyOperation s2 projectId lastVersion request)))"

definition update ::
  "State \<Rightarrow> ApId \<Rightarrow> ApId \<Rightarrow> FlowOperationRequest \<Rightarrow> (Failure + Flow option) \<times> State" where
  "update s projectId flowId request =
     (case acquireLock s flowId 5000 of
        (Inl e, s1) \<Rightarrow> (Inl e, s1)
      | (Inr flowLock, s1) \<Rightarrow>
          (case flowRepo_findOneBy s1 projectId flowId of
             (None, s2) \<Rightarrow> (Inl (FLOW_NOT_FOUND flowId), s2)
           | (Some flow, s2) \<Rightarrow>
               (let (r, s3) = update_try s2 projectId flowId flow request;
                    s4 = release s3 flowLock
                in (case r of
                      Inl e \<Rightarrow> (Inl e, s4)
                    | Inr u \<Rightarrow>
                        (let (res, s5) = getOne s4 projectId flowId None False
                         in (Inr res, s5))))))"

definition delete :: "State \<Rightarrow> ApId \<Rightarrow> ApId \<Rightarrow> State" where
  "delete s projectId flowId =
     (let s1 = onFlowDelete s projectId flowId
      in flowRepo_delete s1 projectId flowId)"

definition count :: "State \<Rightarrow> ApId \<Rightarrow> ApId option \<Rightarrow> nat \<times> State" where
  "count s projectId folderId =
     (case folderId of
        None \<Rightarrow> flowRepo_count s \<lparr>w_projectId = projectId, w_folderId = None\<rparr>
      | Some fid \<Rightarrow>
          (if fid \<noteq> ''NULL''
           then flowRepo_count s \<lparr>w_projectId = projectId, w_folderId = Some (Equal fid)\<rparr>
           else flowRepo_count s \<lparr>w_projectId = projectId, w_folderId = Some IsNull\<rparr>))"

section \<open>A concrete store\<close>

text \<open>Three flows of project \<open>p1\<close>: \<open>f1\<close> has a published (locked) version and an enabled
  instance, \<open>f2\<close> has neither version nor instance, and \<open>f3\<close> sits in a folder whose id
  is the string \<open>NULL\<close>.\<close>

definition exampleState :: State where
  "exampleState =
     \<lparr>flows = [\<lparr>f_id = ''f1'', f_projectId = ''p1'', f_folderId = None\<rparr>,
               \<lparr>f_id = ''f2'', f_projectId = ''p1'', f_folderId = None\<rparr>,
               \<lparr>f_id = ''f3'', f_projectId = ''p1'', f_folderId = Some ''NULL''\<rparr>],
      versions = [\<lparr>v_id = ''v1'', v_flowId = ''f1'',
                   v_content = \<lparr>c_displayName = ''a'', c_valid = True,
                                c_trigger = \<lparr>t_displayName = ''t'', t_name = ''trigger'',
                                             t_type = WEBHOOK, t_settings = [],
                                             t_valid = True\<rparr>\<rparr>,
                   v_state = LOCKED\<rparr>],
      instances = [\<lparr>i_projectId = ''p1'', i_flowId = ''f1'', i_status = ENABLED\<rparr>],
      locks = {},
      calls = []\<rparr>"

definition rename :: "string \<Rightarrow> VersionContent \<Rightarrow> Failure + VersionContent" where
  "rename n c = Inr (c\<lparr>c_displayName := n\<rparr>)"

section \<open>Basic facts\<close>

lemmas update_defs = emit_def flowRepo_findOneBy_def flowRepo_update_def getFlowVersion_def
  createVersion_def applyOperation_def flowInstanceService_get_def acquireLock_def
  update_try_def update_def getOne_def

lemma getOne_absent:
  "find (\<lambda>r. f_projectId r = projectId \<and> f_id r = ident) (flows s) = None \<Longrightarrow>
   fst (getOne s projectId ident versionId includeArtifacts) = None"
  by (simp add: getOne_def flowRepo_findOneBy_def)

lemma getOne_None_iff:
  "fst (getOne s projectId ident versionId includeArtifacts) = None \<longleftrightarrow>
   (\<forall>r \<in> set (flows s). \<not> (f_projectId r = projectId \<and> f_id r = ident))"
proof -
  have "fst (getOne s projectId ident versionId includeArtifacts) = None \<longleftrightarrow>
        find (\<lambda>r. f_projectId r = projectId \<and> f_id r = ident) (flows s) = None"
    by (simp add: getOne_def flowRepo_findOneBy_def Let_def split: option.splits prod.splits)
  then show ?thesis
    by (auto simp: find_None_iff)
qed

lemma length_le_foldr_max:
  "u \<in> set used \<Longrightarrow> length u \<le> foldr (\<lambda>u n. max (length u) n) used 0"
  by (induction used) auto

lemma apId_fresh: "apId used \<notin> set used"
proof
  assume "apId used \<in> set used"
  from length_le_foldr_max [OF this] show False
    by (simp add: apId_def)
qed

lemma apId_not_flow: "apId (idsInUse s) \<notin> f_id ` set (flows s)"
  using apId_fresh [of "idsInUse s"] by (auto simp: idsInUse_def)

lemma apId_not_version: "apId (idsInUse s) \<notin> v_id ` set (versions s)"
  using apId_fresh [of "idsInUse s"] by (auto simp: idsInUse_def)

lemma idsInUse_frame:
  "idsInUse (s\<lparr>calls := c\<rparr>) = idsInUse s"
  "idsInUse (s\<lparr>locks := l\<rparr>) = idsInUse s"
  "idsInUse (s\<lparr>instances := i\<rparr>) = idsInUse s"
  by (simp_all add: idsInUse_def)

section \<open>The lock around update\<close>

text \<open>When the flow row is found, every path through \<open>update\<close> runs the \<open>finally\<close>
  block: the key is free afterwards and the release is in the log.\<close>

lemma update_found_releases:
  assumes "flowId \<notin> locks s"
    and "find (\<lambda>r. f_projectId r = projectId \<and> f_id r = flowId) (flows s) = Some flow"
  shows "flowId \<notin> locks (snd (update s projectId flowId request))
         \<and> EvRelease flowId \<in> set (calls (snd (update s projectId flowId request)))"
  using assms
  by (auto simp: update_defs Let_def
           split: FlowOperationRequest.splits option.splits sum.splits list.splits prod.splits)

text \<open>When the flow row is absent, \<open>update\<close> throws between the acquisition and the
  \<open>try\<close> block: the key stays held and nothing releases it.\<close>

lemma update_absent_holds_lock:
  assumes "flowId \<notin> locks s"
    and "find (\<lambda>r. f_projectId r = projectId \<and> f_id r = flowId) (flows s) = None"
  shows "update s projectId flowId request =
           (Inl (FLOW_NOT_FOUND flowId),
            s\<lparr>locks := insert flowId (locks s),
              calls := calls s @ [EvAcquireLock flowId 5000, EvRepoFindOneBy projectId flowId]\<rparr>)"
  using assms by (simp add: update_defs)

text \<open>C1. The claim: whenever \<open>update\<close> has acquired the lock, \<open>release()\<close> runs before
  \<open>update\<close> returns, also on the path where the flow row is absent and the not-found
  error is raised. The code at a flow id with no row: the lock on \<open>f0\<close> is acquired,
  the not-found error is returned, and the final state still holds the lock, with no
  release in the log.\<close>

theorem update_absent_flow_keeps_lock:
  "update exampleState ''p1'' ''f0'' (CHANGE_FOLDER None) =
     (Inl (FLOW_NOT_FOUND ''f0''),
      exampleState\<lparr>locks := {''f0''},
                   calls := [EvAcquireLock ''f0'' 5000, EvRepoFindOneBy ''p1'' ''f0'']\<rparr>)"
  by (simp add: update_defs exampleState_def)

text \<open>What the body of the \<open>try\<close> block does to the locks and to the log: it leaves
  the locks alone and releases nothing.\<close>

lemma update_try_locks:
  "locks (snd (update_try s projectId flowId flow request)) = locks s"
  by (simp add: update_try_def flowRepo_update_def getFlowVersion_def createVersion_def
        applyOperation_def emit_def Let_def
        split: FlowOperationRequest.splits option.splits sum.splits list.splits prod.splits)

lemma update_try_calls:
  "\<exists>body. calls (snd (update_try s projectId flowId flow request)) = calls s @ body
          \<and> EvRelease k \<notin> set body"
  by (auto simp: update_try_def flowRepo_update_def getFlowVersion_def createVersion_def
        applyOperation_def emit_def Let_def
        split: FlowOperationRequest.splits option.splits sum.splits list.splits prod.splits)

text \<open>\<open>getOne\<close> only reads.\<close>

lemma getOne_reads:
  "flows (snd (getOne s projectId ident versionId includeArtifacts)) = flows s
   \<and> versions (snd (getOne s projectId ident versionId includeArtifacts)) = versions s
   \<and> instances (snd (getOne s projectId ident versionId includeArtifacts)) = instances s
   \<and> locks (snd (getOne s projectId ident versionId includeArtifacts)) = locks s
   \<and> (\<exists>reads. calls (snd (getOne s projectId ident versionId includeArtifacts)) = calls s @ reads
        \<and> set reads \<subseteq> {EvRepoFindOneBy projectId ident, EvGetFlowVersion ident versionId,
                         EvInstanceGet projectId ident})"
proof (cases "find (\<lambda>r. f_projectId r = projectId \<and> f_id r = ident) (flows s)")
  case None
  then show ?thesis
    by (simp add: getOne_def flowRepo_findOneBy_def emit_def)
next
  case (Some flow)
  from find_Some_iff [THEN iffD1, OF Some] have "f_id flow = ident" by auto
  with Some show ?thesis
    by (simp add: getOne_def flowRepo_findOneBy_def getFlowVersion_def
          flowInstanceService_get_def emit_def Let_def)
qed

text \<open>\<open>update\<close> on a free key and an existing flow: the acquisition, the lookup of the
  row, the body of the \<open>try\<close> block, the release, and the final read.\<close>

lemma update_free_found:
  assumes "flowId \<notin> locks s"
    and "find (\<lambda>r. f_projectId r = projectId \<and> f_id r = flowId) (flows s) = Some flow"
  shows "update s projectId flowId request =
           (let s2 = s\<lparr>locks := insert flowId (locks s),
                     calls := calls s @ [EvAcquireLock flowId 5000,
                                         EvRepoFindOneBy projectId flowId]\<rparr>;
                (r, s3) = update_try s2 projectId flowId flow request;
                s4 = release s3 (ApLock flowId)
            in (case r of
                  Inl e \<Rightarrow> (Inl e, s4)
                | Inr u \<Rightarrow>
                    (let (res, s5) = getOne s4 projectId flowId None False
                     in (Inr res, s5))))"
  using assms
  by (simp add: update_def acquireLock_def flowRepo_findOneBy_def emit_def Let_def)

text \<open>C3. Every call of \<open>update\<close> begins with the acquisition of the lock keyed by the
  flow id with the timeout 5000: it is the first call logged, before any read or write
  of the store. When the acquisition fails, \<open>update\<close> fails with that failure, and the
  state is the one before the call but for the logged acquisition: nothing was read or
  written. When the key is free, the lookup of the flow row is the call right after
  the acquisition, and at the return the key is still held or its release is in the
  log. More precisely, \<open>update\<close> takes the key and looks the flow row up, which gives
  the state \<open>s2\<close> that holds the key and has the store untouched. If the row is absent,
  \<open>update\<close> ends there. If the row is found, the body of the \<open>try\<close> block runs from \<open>s2\<close>,
  keeps the locks as they are and releases nothing; every change that \<open>update\<close> makes
  to the flows, versions and instances is made by that body; then the key is released,
  so that the locks are again those before the call, and only reads follow.\<close>

theorem update_acquires_first:
  "(\<exists>rest. calls (snd (update s projectId flowId request))
             = calls s @ EvAcquireLock flowId 5000 # rest)
   \<and> (flowId \<in> locks s \<longrightarrow>
        update s projectId flowId request
          = (Inl (LOCK_TIMEOUT flowId), s\<lparr>calls := calls s @ [EvAcquireLock flowId 5000]\<rparr>))
   \<and> (flowId \<notin> locks s \<longrightarrow>
        (\<exists>rest. calls (snd (update s projectId flowId request))
                  = calls s @ EvAcquireLock flowId 5000 # EvRepoFindOneBy projectId flowId # rest
                \<and> (flowId \<in> locks (snd (update s projectId flowId request))
                    \<or> EvRelease flowId \<in> set rest)))
   \<and> (flowId \<notin> locks s \<longrightarrow>
        (let s2 = s\<lparr>locks := insert flowId (locks s),
                  calls := calls s @ [EvAcquireLock flowId 5000,
                                      EvRepoFindOneBy projectId flowId]\<rparr>
         in (case find (\<lambda>r. f_projectId r = projectId \<and> f_id r = flowId) (flows s) of
               None \<Rightarrow> update s projectId flowId request = (Inl (FLOW_NOT_FOUND flowId), s2)
             | Some flow \<Rightarrow>
                 flowId \<in> locks s2
                 \<and> locks (snd (update_try s2 projectId flowId flow request)) = locks s2
                 \<and> (\<exists>body. calls (snd (update_try s2 projectId flowId flow request))
                              = calls s2 @ body
                            \<and> EvRelease flowId \<notin> set body)
                 \<and> flows (snd (update s projectId flowId request))
                     = flows (snd (update_try s2 projectId flowId flow request))
                 \<and> versions (snd (update s projectId flowId request))
                     = versions (snd (update_try s2 projectId flowId flow request))
                 \<and> instances (snd (update s projectId flowId request))
                     = instances (snd (update_try s2 projectId flowId flow request))
                 \<and> locks (snd (update s projectId flowId request)) = locks s
                 \<and> (\<exists>reads. calls (snd (update s projectId flowId request))
                               = calls (snd (update_try s2 projectId flowId flow request))
                                 @ EvRelease flowId # reads
                             \<and> set reads \<subseteq> {EvRepoFindOneBy projectId flowId,
                                              EvGetFlowVersion flowId None,
                                              EvInstanceGet projectId flowId}))))"
proof -
  let ?s2 = "s\<lparr>locks := insert flowId (locks s),
               calls := calls s @ [EvAcquireLock flowId 5000, EvRepoFindOneBy projectId flowId]\<rparr>"
  have first: "\<exists>rest. calls (snd (update s projectId flowId request))
             = calls s @ EvAcquireLock flowId 5000 # rest"
    by (auto simp: update_defs Let_def
          split: FlowOperationRequest.splits option.splits sum.splits list.splits prod.splits)
  have held: "flowId \<in> locks s \<longrightarrow>
        update s projectId flowId request
          = (Inl (LOCK_TIMEOUT flowId), s\<lparr>calls := calls s @ [EvAcquireLock flowId 5000]\<rparr>)"
    by (simp add: update_def acquireLock_def emit_def)
  have taken: "flowId \<notin> locks s \<longrightarrow>
        (\<exists>rest. calls (snd (update s projectId flowId request))
                  = calls s @ EvAcquireLock flowId 5000 # EvRepoFindOneBy projectId flowId # rest
                \<and> (flowId \<in> locks (snd (update s projectId flowId request))
                    \<or> EvRelease flowId \<in> set rest))"
    by (auto simp: update_defs Let_def
          split: FlowOperationRequest.splits option.splits sum.splits list.splits prod.splits)
  have free: "case find (\<lambda>r. f_projectId r = projectId \<and> f_id r = flowId) (flows s) of
               None \<Rightarrow> update s projectId flowId request = (Inl (FLOW_NOT_FOUND flowId), ?s2)
             | Some flow \<Rightarrow>
                 flowId \<in> locks ?s2
                 \<and> locks (snd (update_try ?s2 projectId flowId flow request)) = locks ?s2
                 \<and> (\<exists>body. calls (snd (update_try ?s2 projectId flowId flow request))
                              = calls ?s2 @ body
                            \<and> EvRelease flowId \<notin> set body)
                 \<and> flows (snd (update s projectId flowId request))
                     = flows (snd (update_try ?s2 projectId flowId flow request))
                 \<and> versions (snd (update s projectId flowId request))
                     = versions (snd (update_try ?s2 projectId flowId flow request))
                 \<and> instances (snd (update s projectId flowId request))
                     = instances (snd (update_try ?s2 projectId flowId flow request))
                 \<and> locks (snd (update s projectId flowId request)) = locks s
                 \<and> (\<exists>reads. calls (snd (update s projectId flowId request))
                               = calls (snd (update_try ?s2 projectId flowId flow request))
                                 @ EvRelease flowId # reads
                             \<and> set reads \<subseteq> {EvRepoFindOneBy projectId flowId,
                                              EvGetFlowVersion flowId None,
                                              EvInstanceGet projectId flowId})"
    if key: "flowId \<notin> locks s"
  proof (cases "find (\<lambda>r. f_projectId r = projectId \<and> f_id r = flowId) (flows s)")
    case None
    with key show ?thesis
      by (simp add: update_def acquireLock_def flowRepo_findOneBy_def emit_def)
  next
    case (Some flow)
    let ?b = "update_try ?s2 projectId flowId flow request"
    let ?s4 = "release (snd ?b) (ApLock flowId)"
    have l: "locks (snd ?b) = locks ?s2"
      by (rule update_try_locks)
    have c: "\<exists>body. calls (snd ?b) = calls ?s2 @ body \<and> EvRelease flowId \<notin> set body"
      by (rule update_try_calls)
    have s4: "flows ?s4 = flows (snd ?b) \<and> versions ?s4 = versions (snd ?b)
              \<and> instances ?s4 = instances (snd ?b) \<and> locks ?s4 = locks s
              \<and> calls ?s4 = calls (snd ?b) @ [EvRelease flowId]"
      using key by (simp add: l emit_def)
    from getOne_reads [of ?s4 projectId flowId None False] obtain reads where
      g: "flows (snd (getOne ?s4 projectId flowId None False)) = flows ?s4"
         "versions (snd (getOne ?s4 projectId flowId None False)) = versions ?s4"
         "instances (snd (getOne ?s4 projectId flowId None False)) = instances ?s4"
         "locks (snd (getOne ?s4 projectId flowId None False)) = locks ?s4"
         "calls (snd (getOne ?s4 projectId flowId None False)) = calls ?s4 @ reads"
         "set reads \<subseteq> {EvRepoFindOneBy projectId flowId, EvGetFlowVersion flowId None,
                          EvInstanceGet projectId flowId}"
      by blast
    have u: "snd (update s projectId flowId request) =
               (case fst ?b of Inl e \<Rightarrow> ?s4
                | Inr u \<Rightarrow> snd (getOne ?s4 projectId flowId None False))"
      by (simp add: update_free_found [OF key Some] Let_def split: prod.splits sum.splits)
    have store: "flows (snd (update s projectId flowId request)) = flows (snd ?b)
        \<and> versions (snd (update s projectId flowId request)) = versions (snd ?b)
        \<and> instances (snd (update s projectId flowId request)) = instances (snd ?b)
        \<and> locks (snd (update s projectId flowId request)) = locks s"
      by (cases "fst ?b") (simp_all only: u sum.case g s4 simp_thms)
    have log: "\<exists>reads. calls (snd (update s projectId flowId request))
                 = calls (snd ?b) @ EvRelease flowId # reads
               \<and> set reads \<subseteq> {EvRepoFindOneBy projectId flowId, EvGetFlowVersion flowId None,
                                EvInstanceGet projectId flowId}"
    proof (cases "fst ?b")
      case (Inl e)
      then have "calls (snd (update s projectId flowId request))
                   = calls (snd ?b) @ EvRelease flowId # []"
        by (simp only: u sum.case s4)
      then show ?thesis by (intro exI [of _ "[]"]) simp
    next
      case (Inr x)
      then have "calls (snd (update s projectId flowId request))
                   = calls (snd ?b) @ EvRelease flowId # reads"
        by (simp only: u sum.case g s4 append.simps append_assoc)
      with g(6) show ?thesis by blast
    qed
    from l c store log show ?thesis
      by (simp only: Some option.case) simp
  qed
  from first held taken free show ?thesis
    by (simp only: Let_def) blast
qed

theorem update_acquires_first_witness:
  "''f1'' \<in> locks (exampleState\<lparr>locks := {''f1''}\<rparr>)
   \<and> update (exampleState\<lparr>locks := {''f1''}\<rparr>) ''p1'' ''f1'' (VERSION_OPERATION (rename ''b''))
       = (Inl (LOCK_TIMEOUT ''f1''),
          exampleState\<lparr>locks := {''f1''}, calls := [EvAcquireLock ''f1'' 5000]\<rparr>)
   \<and> ''f2'' \<notin> locks exampleState
   \<and> calls (snd (update exampleState ''p1'' ''f2'' (CHANGE_FOLDER (Some ''d1''))))
       = [EvAcquireLock ''f2'' 5000, EvRepoFindOneBy ''p1'' ''f2'', EvRepoUpdate ''f2'',
          EvRelease ''f2'', EvRepoFindOneBy ''p1'' ''f2'', EvGetFlowVersion ''f2'' None,
          EvInstanceGet ''p1'' ''f2'']
   \<and> locks (snd (update exampleState ''p1'' ''f2'' (CHANGE_FOLDER (Some ''d1'')))) = {}"
  using update_acquires_first [of "exampleState\<lparr>locks := {''f1''}\<rparr>" "''p1''" "''f1''"
      "VERSION_OPERATION (rename ''b'')"]
    update_acquires_first [of exampleState "''p1''" "''f2''" "CHANGE_FOLDER (Some ''d1'')"]
  by (simp add: exampleState_def update_defs)

section \<open>Deleting a flow\<close>

text \<open>C4. \<open>delete\<close> makes two calls, in this order: the instance cleanup
  \<open>onFlowDelete\<close>, then the deletion of the flow row. The cleanup sees the flow table as
  it was before \<open>delete\<close>: it sees the row exactly when the row existed. After \<open>delete\<close>,
  \<open>getOne\<close> for that project and id gives null.\<close>

theorem delete_cleanup_first:
  "calls (delete s projectId flowId)
     = calls s @ [EvOnFlowDelete projectId flowId
                    (\<exists>r \<in> set (flows s). f_projectId r = projectId \<and> f_id r = flowId),
                  EvRepoDelete projectId flowId]
   \<and> fst (getOne (delete s projectId flowId) projectId flowId versionId includeArtifacts) = None"
proof -
  have "find (\<lambda>r. f_projectId r = projectId \<and> f_id r = flowId)
          (flows (delete s projectId flowId)) = None"
    by (auto simp: delete_def onFlowDelete_def flowRepo_delete_def emit_def Let_def find_None_iff)
  then have "fst (getOne (delete s projectId flowId) projectId flowId versionId includeArtifacts)
               = None"
    by (rule getOne_absent)
  moreover have "calls (delete s projectId flowId)
     = calls s @ [EvOnFlowDelete projectId flowId
                    (\<exists>r \<in> set (flows s). f_projectId r = projectId \<and> f_id r = flowId),
                  EvRepoDelete projectId flowId]"
    by (auto simp: delete_def onFlowDelete_def flowRepo_delete_def emit_def Let_def find_None_iff)
  ultimately show ?thesis by simp
qed

theorem delete_cleanup_first_witness:
  "calls (delete exampleState ''p1'' ''f1'')
     = [EvOnFlowDelete ''p1'' ''f1'' True, EvRepoDelete ''p1'' ''f1'']
   \<and> fst (getOne (delete exampleState ''p1'' ''f1'') ''p1'' ''f1'' None True) = None"
  using delete_cleanup_first [of exampleState "''p1''" "''f1''" None True]
  by (simp add: exampleState_def)

section \<open>Reading one flow\<close>

text \<open>C6. \<open>getOne\<close> gives null, and does not throw, exactly when the table has no row
  with the project and the id. \<open>getOneOrThrow\<close> throws the not-found error that carries
  the id exactly in that case, and gives the flow that \<open>getOne\<close> composes otherwise.\<close>

theorem getOne_null_getOneOrThrow_not_found:
  "(fst (getOne s projectId ident versionId includeArtifacts) = None \<longleftrightarrow>
      (\<forall>r \<in> set (flows s). \<not> (f_projectId r = projectId \<and> f_id r = ident)))
   \<and> (fst (getOneOrThrow s projectId ident) = Inl (FLOW_NOT_FOUND ident) \<longleftrightarrow>
      (\<forall>r \<in> set (flows s). \<not> (f_projectId r = projectId \<and> f_id r = ident)))
   \<and> fst (getOneOrThrow s projectId ident) =
       (case fst (getOne s projectId ident None False) of
          None \<Rightarrow> Inl (FLOW_NOT_FOUND ident)
        | Some flow \<Rightarrow> Inr flow)"
proof -
  have t: "fst (getOneOrThrow s projectId ident) =
       (case fst (getOne s projectId ident None False) of
          None \<Rightarrow> Inl (FLOW_NOT_FOUND ident)
        | Some flow \<Rightarrow> Inr flow)"
    by (simp add: getOneOrThrow_def split: prod.splits option.splits)
  have "fst (getOneOrThrow s projectId ident) = Inl (FLOW_NOT_FOUND ident) \<longleftrightarrow>
        fst (getOne s projectId ident None False) = None"
    by (simp add: t split: option.splits)
  with t show ?thesis
    by (simp only: getOne_None_iff simp_thms)
qed

theorem getOne_null_getOneOrThrow_not_found_witness:
  "fst (getOne exampleState ''p1'' ''f0'' None True) = None
   \<and> fst (getOneOrThrow exampleState ''p1'' ''f0'') = Inl (FLOW_NOT_FOUND ''f0'')
   \<and> fst (getOneOrThrow exampleState ''p1'' ''f1'') =
       Inr \<lparr>f_id = ''f1'', f_projectId = ''p1'', f_folderId = None,
            fl_version = Some (hd (versions exampleState)), fl_status = Some ENABLED\<rparr>"
  using getOne_null_getOneOrThrow_not_found [of exampleState "''p1''" "''f0''" None True]
    getOne_null_getOneOrThrow_not_found [of exampleState "''p1''" "''f1''" None True]
  by (simp add: exampleState_def getOne_def flowRepo_findOneBy_def getFlowVersion_def
        flowInstanceService_get_def emit_def FlowRecord.extend_def Flow.fields_def)

section \<open>Listing and counting\<close>

text \<open>The lookups of \<open>list\<close> change nothing but the log, so each of them answers from the
  store as it was when \<open>list\<close> was called.\<close>

lemma fetchAll_eq:
  "fetchAll s p rows =
     ((map (\<lambda>r. fst (getFlowVersion s p (f_id r) None False)) rows,
       map (\<lambda>r. fst (flowInstanceService_get s p (f_id r))) rows),
      s\<lparr>calls := calls s @ concat (map (\<lambda>r. [EvGetFlowVersion (f_id r) None, EvInstanceGet p (f_id r)]) rows)\<rparr>)"
proof (induction rows arbitrary: s)
  case Nil
  then show ?case by simp
next
  case (Cons r rows)
  show ?case
    by (simp add: Cons.IH getFlowVersion_def flowInstanceService_get_def emit_def)
qed

lemma map_zip3:
  "map (\<lambda>(x, y, z). f x y z) (zip xs (zip (map g xs) (map h xs))) = map (\<lambda>x. f x (g x) (h x)) xs"
  by (induction xs) auto

text \<open>The entries of the page that \<open>list\<close> returns: the rows the paginator picks
  from the rows matching the \<open>where\<close> clause, each with its latest version and its
  status.\<close>

lemma list_data:
  "sp_data (fst (list s p c l fo)) =
     map (\<lambda>r. formatFlow r (fst (getFlowVersion s p (f_id r) None False))
                            (fst (flowInstanceService_get s p (f_id r))))
         (pr_data (paginate (buildPaginator l (nextCursor (decodeCursor c)) (previousCursor (decodeCursor c)))
            (filter (whereMatches \<lparr>w_projectId = p,
                       w_folderId = map_option (\<lambda>fid. if fid = ''NULL'' then IsNull else Equal fid) fo\<rparr>)
                    (flows s))))"
proof -
  have w: "(case fo of None \<Rightarrow> \<lparr>w_projectId = p, w_folderId = None\<rparr>
              | Some fid \<Rightarrow> \<lparr>w_projectId = p, w_folderId = None\<rparr>\<lparr>w_folderId := Some (if fid = ''NULL'' then IsNull else Equal fid)\<rparr>)
           = \<lparr>w_projectId = p,
                       w_folderId = map_option (\<lambda>fid. if fid = ''NULL'' then IsNull else Equal fid) fo\<rparr>"
    by (simp split: option.splits)
  show ?thesis
    unfolding list_def Let_def flowRepo_query_def w
    by (simp add: fetchAll_eq map_zip3 createPage_def getFlowVersion_def flowInstanceService_get_def emit_def)
qed

lemma set_rowsAfter: "set (rowsAfter k rs) \<subseteq> set rs"
  by (induction rs) auto

lemma set_pageWindow: "set (pageWindow p rows) \<subseteq> set rows"
  using set_rowsAfter [of _ "rev rows"]
  by (auto simp: pageWindow_def split: option.splits dest: set_takeWhileD)

lemma set_paginate: "set (pr_data (paginate p rows)) \<subseteq> set rows"
  using set_pageWindow [of p rows]
  by (auto simp: paginate_def Let_def dest: in_set_takeD)

lemma truncate_formatFlow: "FlowRecord.truncate (formatFlow r v i) = r"
  by (simp add: formatFlow_def FlowRecord.truncate_def FlowRecord.extend_def Flow.fields_def)

lemma list_rows:
  "map FlowRecord.truncate (sp_data (fst (list s p c l fo))) =
     pr_data (paginate (buildPaginator l (nextCursor (decodeCursor c)) (previousCursor (decodeCursor c)))
            (filter (whereMatches \<lparr>w_projectId = p,
                       w_folderId = map_option (\<lambda>fid. if fid = ''NULL'' then IsNull else Equal fid) fo\<rparr>)
                    (flows s)))"
  by (simp add: list_data o_def truncate_formatFlow)

lemma whereMatches_IsNull:
  "whereMatches \<lparr>w_projectId = p, w_folderId = Some IsNull\<rparr> = (\<lambda>r. f_projectId r = p \<and> f_folderId r = None)"
  by (simp add: whereMatches_def fun_eq_iff)

text \<open>C5. \<open>list\<close> with the folder id \<open>'NULL'\<close> hands the paginator exactly the flows of
  the project whose folder is unset and returns the page that the paginator makes of
  them: every entry is such a flow, \<open>list\<close> itself adds and drops none, and when the page
  holds every row the paginator was given, the entries are exactly these flows.
  \<open>count\<close> with \<open>'NULL'\<close> is the number of flows of the project whose folder is unset.\<close>

theorem list_no_folder_page:
  "map FlowRecord.truncate (sp_data (fst (list s p c l (Some ''NULL'')))) =
     pr_data (paginate (buildPaginator l (nextCursor (decodeCursor c)) (previousCursor (decodeCursor c)))
                (filter (\<lambda>r. f_projectId r = p \<and> f_folderId r = None) (flows s)))
   \<and> (\<forall>fl \<in> set (sp_data (fst (list s p c l (Some ''NULL'')))).
         FlowRecord.truncate fl \<in> set (flows s) \<and> f_projectId fl = p \<and> f_folderId fl = None)
   \<and> (set (pr_data (paginate (buildPaginator l (nextCursor (decodeCursor c))
                                (previousCursor (decodeCursor c)))
                (filter (\<lambda>r. f_projectId r = p \<and> f_folderId r = None) (flows s))))
         = set (filter (\<lambda>r. f_projectId r = p \<and> f_folderId r = None) (flows s)) \<longrightarrow>
       set (map FlowRecord.truncate (sp_data (fst (list s p c l (Some ''NULL''))))) =
         {r \<in> set (flows s). f_projectId r = p \<and> f_folderId r = None})
   \<and> fst (count s p (Some ''NULL'')) =
        length (filter (\<lambda>r. f_projectId r = p \<and> f_folderId r = None) (flows s))"
proof -
  let ?pg = "buildPaginator l (nextCursor (decodeCursor c)) (previousCursor (decodeCursor c))"
  let ?sel = "filter (\<lambda>r. f_projectId r = p \<and> f_folderId r = None) (flows s)"
  let ?out = "sp_data (fst (list s p c l (Some ''NULL'')))"
  have rows: "map FlowRecord.truncate ?out = pr_data (paginate ?pg ?sel)"
    by (simp add: list_rows whereMatches_IsNull)
  have sub: "\<forall>fl \<in> set ?out.
         FlowRecord.truncate fl \<in> set (flows s) \<and> f_projectId fl = p \<and> f_folderId fl = None"
  proof
    fix fl assume "fl \<in> set ?out"
    then have "FlowRecord.truncate fl \<in> set (map FlowRecord.truncate ?out)" by simp
    then have "FlowRecord.truncate fl \<in> set ?sel"
      using set_paginate [of ?pg ?sel] by (auto simp only: rows)
    then show "FlowRecord.truncate fl \<in> set (flows s) \<and> f_projectId fl = p \<and> f_folderId fl = None"
      by (auto simp: FlowRecord.truncate_def)
  qed
  have full: "set (pr_data (paginate ?pg ?sel)) = set ?sel \<longrightarrow>
       set (map FlowRecord.truncate ?out) = {r \<in> set (flows s). f_projectId r = p \<and> f_folderId r = None}"
    by (auto simp only: rows set_filter)
  have cnt: "fst (count s p (Some ''NULL'')) = length ?sel"
    by (simp add: count_def flowRepo_count_def whereMatches_IsNull)
  from rows sub full cnt show ?thesis by blast
qed

theorem list_no_folder_page_witness:
  "set (map FlowRecord.truncate (sp_data (fst (list exampleState ''p1'' None 5 (Some ''NULL''))))) =
     {\<lparr>f_id = ''f1'', f_projectId = ''p1'', f_folderId = None\<rparr>,
      \<lparr>f_id = ''f2'', f_projectId = ''p1'', f_folderId = None\<rparr>}
   \<and> fst (count exampleState ''p1'' (Some ''NULL'')) = 2"
proof -
  let ?pg = "buildPaginator 5 (nextCursor (decodeCursor None)) (previousCursor (decodeCursor None))"
  let ?sel = "filter (\<lambda>r. f_projectId r = ''p1'' \<and> f_folderId r = None) (flows exampleState)"
  have sel: "?sel = [\<lparr>f_id = ''f1'', f_projectId = ''p1'', f_folderId = None\<rparr>,
                     \<lparr>f_id = ''f2'', f_projectId = ''p1'', f_folderId = None\<rparr>]"
    by (simp add: exampleState_def)
  have page: "set (pr_data (paginate ?pg ?sel)) = set ?sel"
    by (auto simp: sel paginate_def pageWindow_def buildPaginator_def decodeCursor_def)
  from list_no_folder_page [of exampleState "''p1''" None 5] page
  have "set (map FlowRecord.truncate (sp_data (fst (list exampleState ''p1'' None 5 (Some ''NULL'')))))
          = set ?sel
        \<and> fst (count exampleState ''p1'' (Some ''NULL'')) = length ?sel"
    by (simp only: set_filter)
  then show ?thesis
    by (auto simp: sel)
qed

section \<open>The status of a composed flow\<close>

lemma status_formatFlow:
  "fl_status (formatFlow r v inst) = Some (case inst of None \<Rightarrow> UNPUBLISHED | Some i \<Rightarrow> i_status i)"
  by (simp add: formatFlow_def FlowRecord.extend_def Flow.fields_def split: option.splits)

lemma id_formatFlow: "f_id (formatFlow r v inst) = f_id r"
  by (simp add: formatFlow_def FlowRecord.extend_def Flow.fields_def)

lemma instance_get_None_iff:
  "fst (flowInstanceService_get s projectId flowId) = None \<longleftrightarrow>
   (\<forall>i \<in> set (instances s). \<not> (i_projectId i = projectId \<and> i_flowId i = flowId))"
  by (auto simp: flowInstanceService_get_def find_None_iff)

text \<open>C9. The status of a flow composed by \<open>getOne\<close> or by \<open>list\<close> is the status of the
  instance that the instance service gives for the project and the flow, and
  \<open>UNPUBLISHED\<close> when it gives none, which is when no instance record exists for the
  flow.\<close>

theorem status_defaults_to_unpublished:
  "(\<forall>fl. fst (getOne s projectId ident versionId includeArtifacts) = Some fl \<longrightarrow>
       fl_status fl =
         Some (case fst (flowInstanceService_get s projectId (f_id fl)) of
                 None \<Rightarrow> UNPUBLISHED
               | Some inst \<Rightarrow> i_status inst))
   \<and> (\<forall>fl \<in> set (sp_data (fst (list s projectId cursorRequest limit folderId))).
       fl_status fl =
         Some (case fst (flowInstanceService_get s projectId (f_id fl)) of
                 None \<Rightarrow> UNPUBLISHED
               | Some inst \<Rightarrow> i_status inst))
   \<and> (fst (flowInstanceService_get s projectId flowId) = None \<longleftrightarrow>
       (\<forall>i \<in> set (instances s). \<not> (i_projectId i = projectId \<and> i_flowId i = flowId)))"
proof -
  have one: "\<forall>fl. fst (getOne s projectId ident versionId includeArtifacts) = Some fl \<longrightarrow>
       fl_status fl =
         Some (case fst (flowInstanceService_get s projectId (f_id fl)) of
                 None \<Rightarrow> UNPUBLISHED
               | Some inst \<Rightarrow> i_status inst)"
    by (auto simp: getOne_def flowRepo_findOneBy_def getFlowVersion_def
          flowInstanceService_get_def emit_def Let_def FlowRecord.extend_def Flow.fields_def
          split: option.splits prod.splits)
  have many: "\<forall>fl \<in> set (sp_data (fst (list s projectId cursorRequest limit folderId))).
       fl_status fl =
         Some (case fst (flowInstanceService_get s projectId (f_id fl)) of
                 None \<Rightarrow> UNPUBLISHED
               | Some inst \<Rightarrow> i_status inst)"
    by (auto simp: list_data status_formatFlow id_formatFlow)
  from one many instance_get_None_iff show ?thesis by blast
qed

theorem status_defaults_to_unpublished_witness:
  "map_option fl_status (fst (getOne exampleState ''p1'' ''f2'' None True)) = Some (Some UNPUBLISHED)
   \<and> map_option fl_status (fst (getOne exampleState ''p1'' ''f1'' None True)) = Some (Some ENABLED)
   \<and> map fl_status (sp_data (fst (list exampleState ''p1'' None 5 None)))
       = [Some UNPUBLISHED, Some UNPUBLISHED, Some ENABLED]"
  using status_defaults_to_unpublished [of exampleState "''p1''" "''f2''" None True None 5 None "''f2''"]
    status_defaults_to_unpublished [of exampleState "''p1''" "''f1''" None True None 5 None "''f1''"]
  by (simp add: exampleState_def list_data status_formatFlow whereMatches_def paginate_def
        pageWindow_def buildPaginator_def decodeCursor_def getOne_def flowRepo_findOneBy_def
        getFlowVersion_def flowInstanceService_get_def emit_def FlowRecord.extend_def Flow.fields_def)

section \<open>The folder id NULL\<close>

lemma whereMatches_Equal:
  "whereMatches \<lparr>w_projectId = p, w_folderId = Some (Equal x)\<rparr> = (\<lambda>r. f_projectId r = p \<and> f_folderId r = Some x)"
  by (simp add: whereMatches_def fun_eq_iff)

text \<open>C10. In \<open>list\<close> and in \<open>count\<close> the folder id \<open>'NULL'\<close> selects the flows of the
  project whose folder is unset, and any other folder id the flows of the project in
  that folder. So whatever folder id is given, no flow whose stored folder id is the
  string \<open>NULL\<close> is on the page or in the count.\<close>

theorem folder_NULL_is_the_sentinel:
  "(\<forall>fl \<in> set (sp_data (fst (list s projectId cursorRequest limit (Some ''NULL'')))).
       f_folderId fl = None)
   \<and> fst (count s projectId (Some ''NULL''))
       = length (filter (\<lambda>r. f_projectId r = projectId \<and> f_folderId r = None) (flows s))
   \<and> (\<forall>fl \<in> set (sp_data (fst (list s projectId cursorRequest limit (Some x)))).
       f_folderId fl \<noteq> Some ''NULL'')
   \<and> fst (count s projectId (Some x))
       = length (filter (\<lambda>r. f_projectId r = projectId \<and> f_folderId r \<noteq> Some ''NULL'' \<and>
                              (if x = ''NULL'' then f_folderId r = None else f_folderId r = Some x))
                        (flows s))"
proof -
  let ?pg = "buildPaginator limit (nextCursor (decodeCursor cursorRequest))
               (previousCursor (decodeCursor cursorRequest))"
  have sel: "\<And>y fl. fl \<in> set (sp_data (fst (list s projectId cursorRequest limit (Some y)))) \<Longrightarrow>
       whereMatches \<lparr>w_projectId = projectId,
                      w_folderId = Some (if y = ''NULL'' then IsNull else Equal y)\<rparr>
         (FlowRecord.truncate fl)"
  proof -
    fix y fl
    assume "fl \<in> set (sp_data (fst (list s projectId cursorRequest limit (Some y))))"
    then have "FlowRecord.truncate fl
        \<in> set (map FlowRecord.truncate (sp_data (fst (list s projectId cursorRequest limit (Some y)))))"
      by simp
    then show "whereMatches \<lparr>w_projectId = projectId,
                      w_folderId = Some (if y = ''NULL'' then IsNull else Equal y)\<rparr>
         (FlowRecord.truncate fl)"
      using set_paginate [of ?pg "filter (whereMatches \<lparr>w_projectId = projectId,
                      w_folderId = Some (if y = ''NULL'' then IsNull else Equal y)\<rparr>) (flows s)"]
      by (auto simp: list_rows)
  qed
  have a: "\<forall>fl \<in> set (sp_data (fst (list s projectId cursorRequest limit (Some ''NULL'')))).
       f_folderId fl = None"
    using sel [of _ "''NULL''"] by (auto simp: whereMatches_def FlowRecord.truncate_def)
  have b: "fst (count s projectId (Some ''NULL''))
       = length (filter (\<lambda>r. f_projectId r = projectId \<and> f_folderId r = None) (flows s))"
    by (simp add: count_def flowRepo_count_def whereMatches_IsNull)
  have c: "\<forall>fl \<in> set (sp_data (fst (list s projectId cursorRequest limit (Some x)))).
       f_folderId fl \<noteq> Some ''NULL''"
  proof
    fix fl
    assume "fl \<in> set (sp_data (fst (list s projectId cursorRequest limit (Some x))))"
    from sel [OF this] show "f_folderId fl \<noteq> Some ''NULL''"
      by (cases "x = ''NULL''") (auto simp: whereMatches_def FlowRecord.truncate_def)
  qed
  have d: "fst (count s projectId (Some x))
       = length (filter (\<lambda>r. f_projectId r = projectId \<and> f_folderId r \<noteq> Some ''NULL'' \<and>
                              (if x = ''NULL'' then f_folderId r = None else f_folderId r = Some x))
                        (flows s))"
    by (auto simp: count_def flowRepo_count_def whereMatches_IsNull whereMatches_Equal
          intro!: arg_cong [where f = length] filter_cong)
  from a b c d show ?thesis by blast
qed

theorem folder_NULL_is_the_sentinel_witness:
  "\<lparr>f_id = ''f3'', f_projectId = ''p1'', f_folderId = Some ''NULL''\<rparr> \<in> set (flows exampleState)
   \<and> map f_id (sp_data (fst (list exampleState ''p1'' None 5 (Some ''NULL'')))) = [''f2'', ''f1'']
   \<and> fst (count exampleState ''p1'' (Some ''NULL'')) = 2"
  using folder_NULL_is_the_sentinel [of exampleState "''p1''" None 5 "''NULL''"]
  by (simp add: exampleState_def list_data id_formatFlow whereMatches_def paginate_def
        pageWindow_def buildPaginator_def decodeCursor_def)

section \<open>Folder reassignment\<close>

lemma find_row:
  "find (\<lambda>r. f_projectId r = projectId \<and> f_id r = ident) rows = Some flow \<Longrightarrow>
   flow \<in> set rows \<and> f_projectId flow = projectId \<and> f_id flow = ident"
  by (induction rows) (auto split: if_splits)

lemma same_id_same_row:
  assumes "distinct (map f_id rows)" and "x \<in> set rows" and "y \<in> set rows" and "f_id x = f_id y"
  shows "x = y"
  using assms by (meson distinct_map inj_onD)

lemma update_row_in_place:
  assumes "distinct (map f_id rows)"
    and "find (\<lambda>r. f_projectId r = projectId \<and> f_id r = ident) rows = Some flow"
  shows "map (\<lambda>x. if f_id x = f_id flow then flow\<lparr>f_folderId := fo\<rparr> else x) rows
         = map (\<lambda>r. if f_id r = ident then r\<lparr>f_folderId := fo\<rparr> else r) rows"
proof (rule map_cong [OF refl])
  fix x assume x: "x \<in> set rows"
  from find_row [OF assms(2)] have f: "flow \<in> set rows" "f_id flow = ident" by simp_all
  show "(if f_id x = f_id flow then flow\<lparr>f_folderId := fo\<rparr> else x)
        = (if f_id x = ident then x\<lparr>f_folderId := fo\<rparr> else x)"
    using same_id_same_row [OF assms(1) x f(1)] f(2) by auto
qed

lemma change_folder_flows:
  assumes "distinct (map f_id (flows s))"
  shows "flows (snd (update s projectId flowId (CHANGE_FOLDER folderId))) =
           (if flowId \<in> locks s \<or>
               find (\<lambda>r. f_projectId r = projectId \<and> f_id r = flowId) (flows s) = None
            then flows s
            else map (\<lambda>r. if f_id r = flowId then r\<lparr>f_folderId := folderId\<rparr> else r) (flows s))"
proof (cases "flowId \<in> locks s")
  case True
  then show ?thesis by (simp add: update_defs)
next
  case free: False
  show ?thesis
  proof (cases "find (\<lambda>r. f_projectId r = projectId \<and> f_id r = flowId) (flows s)")
    case None
    with free show ?thesis by (simp add: update_defs)
  next
    case (Some flow)
    from update_row_in_place [OF assms Some, of folderId] free Some show ?thesis
      by (simp add: update_defs Let_def split: option.splits prod.splits)
  qed
qed

lemma change_folder_versions:
  "versions (snd (update s projectId flowId (CHANGE_FOLDER folderId))) = versions s
   \<and> instances (snd (update s projectId flowId (CHANGE_FOLDER folderId))) = instances s"
  by (simp add: update_defs Let_def split: option.splits prod.splits)

text \<open>C8. A folder reassignment leaves the versions and the instances as they were.
  In the flow table, where ids are unique, it changes nothing when the lock is taken or
  the flow is absent, and otherwise it sets the folder id of the row with the flow's id
  and leaves every other field of that row and every other row as it was.\<close>

theorem update_change_folder_frame:
  assumes "distinct (map f_id (flows s))"
  shows "versions (snd (update s projectId flowId (CHANGE_FOLDER folderId))) = versions s
       \<and> instances (snd (update s projectId flowId (CHANGE_FOLDER folderId))) = instances s
       \<and> flows (snd (update s projectId flowId (CHANGE_FOLDER folderId))) =
           (if flowId \<in> locks s \<or>
               find (\<lambda>r. f_projectId r = projectId \<and> f_id r = flowId) (flows s) = None
            then flows s
            else map (\<lambda>r. if f_id r = flowId then r\<lparr>f_folderId := folderId\<rparr> else r) (flows s))"
  using change_folder_flows [OF assms, of projectId flowId folderId]
    change_folder_versions [of s projectId flowId folderId]
  by (simp only: simp_thms)

theorem update_change_folder_frame_witness:
  "distinct (map f_id (flows exampleState))
   \<and> versions (snd (update exampleState ''p1'' ''f2'' (CHANGE_FOLDER (Some ''d1''))))
       = versions exampleState
   \<and> flows (snd (update exampleState ''p1'' ''f2'' (CHANGE_FOLDER (Some ''d1''))))
       = [\<lparr>f_id = ''f1'', f_projectId = ''p1'', f_folderId = None\<rparr>,
          \<lparr>f_id = ''f2'', f_projectId = ''p1'', f_folderId = Some ''d1''\<rparr>,
          \<lparr>f_id = ''f3'', f_projectId = ''p1'', f_folderId = Some ''NULL''\<rparr>]"
proof -
  have d: "distinct (map f_id (flows exampleState))"
    by (simp add: exampleState_def)
  from update_change_folder_frame [OF d, of "''p1''" "''f2''" "Some ''d1''"] d
  show ?thesis by (simp add: exampleState_def)
qed

section \<open>Copy on write\<close>

lemma getFlowVersion_Some:
  assumes "fst (getFlowVersion s projectId flowId versionId includeArtifacts) = Some v"
  shows "v \<in> set (versions s) \<and> v_flowId v = flowId"
proof -
  let ?found = "filter (\<lambda>v. v_flowId v = flowId \<and>
                   (case versionId of None \<Rightarrow> True | Some k \<Rightarrow> v_id v = k)) (versions s)"
  from assms have "hd (rev ?found) = v \<and> rev ?found \<noteq> []"
    by (simp add: getFlowVersion_def Let_def split: list.splits)
  then have "v \<in> set (rev ?found)"
    using hd_in_set by blast
  then have "v \<in> set ?found"
    by (simp only: set_rev)
  then show ?thesis by simp
qed

lemma map_fresh_id:
  "k \<notin> set (map v_id vs) \<Longrightarrow> map (\<lambda>v. if v_id v = k then h v else v) vs = vs"
  by (induction vs) auto

text \<open>C2. An update that is not a folder reassignment, on a free lock, an existing flow
  and a current version \<open>lv\<close>. If \<open>lv\<close> is \<open>LOCKED\<close>, the stored versions afterwards are
  the ones before, every one of them unchanged and \<open>lv\<close> among them, followed by one new
  \<open>DRAFT\<close> version of the flow; the id of the new version is the id of no version
  stored before, so it is not the id of \<open>lv\<close>, and its content is the content of \<open>lv\<close>
  with the operation applied (or the content of \<open>lv\<close> when the operation fails). If
  \<open>lv\<close> is not \<open>LOCKED\<close>, no version is added and the operation is applied in place to
  the version with the id of \<open>lv\<close>.\<close>

theorem update_copy_on_write:
  assumes "flowId \<notin> locks s"
    and "\<exists>r \<in> set (flows s). f_projectId r = projectId \<and> f_id r = flowId"
    and "fst (getFlowVersion s projectId flowId None False) = Some lv"
  shows "versions (snd (update s projectId flowId (VERSION_OPERATION g))) =
           (if v_state lv = LOCKED
            then versions s @
                 [\<lparr>v_id = apId (idsInUse s), v_flowId = flowId,
                   v_content = (case g (v_content lv) of Inl e \<Rightarrow> v_content lv | Inr c \<Rightarrow> c),
                   v_state = DRAFT\<rparr>]
            else (case g (v_content lv) of
                    Inl e \<Rightarrow> versions s
                  | Inr c \<Rightarrow> map (\<lambda>v. if v_id v = v_id lv then v\<lparr>v_content := c\<rparr> else v)
                                  (versions s)))
         \<and> (v_state lv = LOCKED \<longrightarrow>
              lv \<in> set (versions (snd (update s projectId flowId (VERSION_OPERATION g))))
              \<and> take (length (versions s))
                   (versions (snd (update s projectId flowId (VERSION_OPERATION g)))) = versions s
              \<and> v_id (last (versions (snd (update s projectId flowId (VERSION_OPERATION g)))))
                   \<notin> v_id ` set (versions s)
              \<and> v_id (last (versions (snd (update s projectId flowId (VERSION_OPERATION g)))))
                   \<noteq> v_id lv)"
proof -
  let ?out = "versions (snd (update s projectId flowId (VERSION_OPERATION g)))"
  from assms(2) obtain flow where
    flow: "find (\<lambda>r. f_projectId r = projectId \<and> f_id r = flowId) (flows s) = Some flow"
    by (cases "find (\<lambda>r. f_projectId r = projectId \<and> f_id r = flowId) (flows s)")
       (auto simp: find_None_iff)
  from getFlowVersion_Some [OF assms(3)] have lv: "lv \<in> set (versions s)" by simp
  have fresh: "apId (idsInUse s) \<notin> set (map v_id (versions s))"
    using apId_not_version [of s] by simp
  have latest: "(case rev (filter (\<lambda>v. v_flowId v = flowId) (versions s)) of
                   [] \<Rightarrow> None | v # x \<Rightarrow> Some v) = Some lv"
    using assms(3) by (simp add: getFlowVersion_def)
  have main: "?out =
           (if v_state lv = LOCKED
            then versions s @
                 [\<lparr>v_id = apId (idsInUse s), v_flowId = flowId,
                   v_content = (case g (v_content lv) of Inl e \<Rightarrow> v_content lv | Inr c \<Rightarrow> c),
                   v_state = DRAFT\<rparr>]
            else (case g (v_content lv) of
                    Inl e \<Rightarrow> versions s
                  | Inr c \<Rightarrow> map (\<lambda>v. if v_id v = v_id lv then v\<lparr>v_content := c\<rparr> else v)
                                  (versions s)))"
    using assms(1) fresh flow latest
    by (simp add: update_defs Let_def map_fresh_id idsInUse_frame
          split: sum.splits prod.splits option.splits)
  have locked: "lv \<in> set ?out \<and> take (length (versions s)) ?out = versions s
                \<and> v_id (last ?out) \<notin> v_id ` set (versions s) \<and> v_id (last ?out) \<noteq> v_id lv"
    if "v_state lv = LOCKED"
  proof -
    from that main have out: "?out = versions s @
                 [\<lparr>v_id = apId (idsInUse s), v_flowId = flowId,
                   v_content = (case g (v_content lv) of Inl e \<Rightarrow> v_content lv | Inr c \<Rightarrow> c),
                   v_state = DRAFT\<rparr>]"
      by simp
    have "v_id (last ?out) = apId (idsInUse s)"
      by (simp add: out)
    with lv apId_not_version [of s] show ?thesis
      by (auto simp: out)
  qed
  from main locked show ?thesis by blast
qed

theorem update_copy_on_write_witness:
  "versions (snd (update exampleState ''p1'' ''f1'' (VERSION_OPERATION (rename ''b''))))
     = [\<lparr>v_id = ''v1'', v_flowId = ''f1'',
         v_content = \<lparr>c_displayName = ''a'', c_valid = True,
                      c_trigger = \<lparr>t_displayName = ''t'', t_name = ''trigger'',
                                   t_type = WEBHOOK, t_settings = [], t_valid = True\<rparr>\<rparr>,
         v_state = LOCKED\<rparr>,
        \<lparr>v_id = ''xxx'', v_flowId = ''f1'',
         v_content = \<lparr>c_displayName = ''b'', c_valid = True,
                      c_trigger = \<lparr>t_displayName = ''t'', t_name = ''trigger'',
                                   t_type = WEBHOOK, t_settings = [], t_valid = True\<rparr>\<rparr>,
         v_state = DRAFT\<rparr>]"
proof -
  have 1: "''f1'' \<notin> locks exampleState"
    by (simp add: exampleState_def)
  have 2: "\<exists>r \<in> set (flows exampleState). f_projectId r = ''p1'' \<and> f_id r = ''f1''"
    by (simp add: exampleState_def)
  have 3: "fst (getFlowVersion exampleState ''p1'' ''f1'' None False) = Some (hd (versions exampleState))"
    by (simp add: exampleState_def getFlowVersion_def)
  from update_copy_on_write [OF 1 2 3, of "rename ''b''"] show ?thesis
    by (simp add: exampleState_def rename_def apId_def idsInUse_def)
qed

section \<open>Creating a flow\<close>

lemma find_saved_overwrite:
  assumes "f_projectId r = projectId" and "f_id r = ident"
  shows "ident \<in> f_id ` set rows \<Longrightarrow>
         find (\<lambda>x. f_projectId x = projectId \<and> f_id x = ident)
              (map (\<lambda>x. if f_id x = ident then r else x) rows) = Some r"
  using assms by (induction rows) auto

lemma find_saved_append:
  assumes "f_projectId r = projectId" and "f_id r = ident"
  shows "ident \<notin> f_id ` set rows \<Longrightarrow>
         find (\<lambda>x. f_projectId x = projectId \<and> f_id x = ident) (rows @ [r]) = Some r"
  using assms by (induction rows) auto

text \<open>C7. \<open>create\<close> saves a row with a new flow id \<open>nf\<close> and stores a version of that flow
  with a new version id \<open>nv\<close>: a \<open>DRAFT\<close> version that is not valid and whose trigger is
  of type \<open>EMPTY\<close> and not valid. The flow that \<open>create\<close> returns is the saved row composed
  with that version, and \<open>getOne\<close> right after, without a version id, gives a flow with
  that version.\<close>

theorem create_initial_version:
  "(let nf = apId (idsInUse s);
        row = \<lparr>f_id = nf, f_projectId = projectId, f_folderId = cr_folderId request\<rparr>;
        nv = apId (idsInUse (s\<lparr>flows := flows s @ [row]\<rparr>));
        v = \<lparr>v_id = nv, v_flowId = nf,
             v_content = \<lparr>c_displayName = cr_displayName request, c_valid = False,
                          c_trigger = \<lparr>t_displayName = ''Select Trigger'', t_name = ''trigger'',
                                       t_type = EMPTY, t_settings = [], t_valid = False\<rparr>\<rparr>,
             v_state = DRAFT\<rparr>
    in fl_version (fst (create s projectId request)) = Some v
       \<and> FlowRecord.truncate (fst (create s projectId request)) = row
       \<and> v \<in> set (versions (snd (create s projectId request)))
       \<and> map_option fl_version
            (fst (getOne (snd (create s projectId request)) projectId nf None includeArtifacts)) =
           Some (fl_version (fst (create s projectId request)))
       \<and> nf \<notin> f_id ` set (flows s)
       \<and> nv \<notin> v_id ` set (versions s))"
proof -
  let ?row = "\<lparr>f_id = apId (idsInUse s), f_projectId = projectId,
               f_folderId = cr_folderId request\<rparr>"
  have nv: "apId (idsInUse (s\<lparr>flows := flows s @ [?row]\<rparr>)) \<notin> v_id ` set (versions s)"
    using apId_not_version [of "s\<lparr>flows := flows s @ [?row]\<rparr>"] by simp
  have ids: "idsInUse (s\<lparr>calls := calls s @ [EvRepoSave (apId (idsInUse s))],
                         flows := flows s @ [?row]\<rparr>)
             = idsInUse (s\<lparr>flows := flows s @ [?row]\<rparr>)"
    by (simp add: idsInUse_def)
  show ?thesis
    using nv apId_not_flow [of s]
    by (simp add: create_def flowRepo_save_def createVersion_def getFlowVersion_def
          trackProject_def emit_def getOne_def flowRepo_findOneBy_def flowInstanceService_get_def
          Let_def FlowRecord.extend_def FlowRecord.truncate_def Flow.fields_def
          find_saved_append ids split: prod.splits)
qed

theorem create_initial_version_witness:
  "map_option (\<lambda>v. (t_type (c_trigger (v_content v)), t_valid (c_trigger (v_content v)),
                      c_valid (v_content v)))
     (fl_version (fst (create exampleState ''p1''
                         \<lparr>cr_displayName = ''n'', cr_folderId = None\<rparr>)))
     = Some (EMPTY, False, False)"
  using create_initial_version [of exampleState "''p1''"
      "\<lparr>cr_displayName = ''n'', cr_folderId = None\<rparr>" True]
  by (simp add: Let_def)

section \<open>Unique ids in the flow table\<close>

text \<open>The id is the primary key of the flow table: no operation of the service makes
  two rows share one.\<close>

lemma ids_overwrite: "f_id r = k \<Longrightarrow> f_id \<circ> (\<lambda>x. if f_id x = k then r else x) = f_id"
  by (auto simp: fun_eq_iff)

lemma ids_set_folder: "f_id \<circ> (\<lambda>r. if f_id r = k then r\<lparr>f_folderId := fo\<rparr> else r) = f_id"
  by (auto simp: fun_eq_iff)

lemma create_keeps_ids_distinct:
  assumes "distinct (map f_id (flows s))"
  shows "distinct (map f_id (flows (snd (create s projectId request))))"
  using assms apId_not_flow [of s]
  by (auto simp: create_def flowRepo_save_def createVersion_def getFlowVersion_def
        trackProject_def emit_def Let_def ids_overwrite split: prod.splits)

lemma update_keeps_ids_distinct:
  assumes "distinct (map f_id (flows s))"
  shows "distinct (map f_id (flows (snd (update s projectId flowId request))))"
proof (cases request)
  case (CHANGE_FOLDER folderId)
  with change_folder_flows [OF assms, of projectId flowId folderId] assms
  show ?thesis by (simp add: ids_set_folder split: if_splits)
next
  case (VERSION_OPERATION g)
  have "flows (snd (update s projectId flowId (VERSION_OPERATION g))) = flows s"
    by (simp add: update_defs Let_def
          split: option.splits sum.splits list.splits prod.splits)
  with assms VERSION_OPERATION show ?thesis by simp
qed

lemma delete_keeps_ids_distinct:
  assumes "distinct (map f_id (flows s))"
  shows "distinct (map f_id (flows (delete s projectId flowId)))"
  using assms
  by (simp add: delete_def onFlowDelete_def flowRepo_delete_def emit_def Let_def distinct_map_filter)

end
